theory Spec2Isabelle
  imports Main "HOL-Library.Word"
begin

section \<open>The JSON reader's ingestion layer (cpp/src/io/json/read_json.hpp)\<close>

text \<open>
  The header declares the tuning constants of the batch planner, the entry points
  \<open>ingest_raw_input\<close> and \<open>read_json\<close>, and defines the class
  \<open>compressed_host_buffer_source\<close> in full. The class is embedded from its source
  below; what the header only declares, or calls without defining, is marked where it
  is introduced.
\<close>

subsection \<open>Machine types\<close>

text \<open>\<open>uint8_t\<close> and \<open>size_t\<close> (64 bits on the supported platforms): arithmetic wraps.\<close>

type_synonym byte = "8 word"
type_synonym size_t = "64 word"

text \<open>\<open>std::vector<uint8_t>::size()\<close> and \<open>host_span::size()\<close>, as a \<open>size_t\<close>.\<close>

definition vsize :: "byte list \<Rightarrow> size_t" where
  "vsize v = of_nat (length v)"

subsection \<open>The magic numbers\<close>

definition num_subchunks :: int where
  "num_subchunks = 10"

definition min_subchunk_size :: size_t where
  "min_subchunk_size = 10000"

definition estimated_compression_ratio :: int where
  "estimated_compression_ratio = 4"

definition max_subchunks_prealloced :: int where
  "max_subchunks_prealloced = 3"

subsection \<open>What the class calls but the header does not define\<close>

text \<open>
  Modelled from the spec: the enumeration \<open>cudf::io::compression_type\<close> comes from
  \<open>cudf/io/types.hpp\<close>, which is not among the files embedded here. The data model gives the
  compression kinds as NONE, GZIP, ZIP, SNAPPY and "other"; the class only ever compares a
  kind with GZIP, ZIP and SNAPPY.
\<close>

datatype compression_type = NONE | GZIP | ZIP | SNAPPY | OTHER

text \<open>
  The outcomes that are not a normal return. \<open>Decompress_failed\<close> is the exception of the
  decompression primitive, which the class lets through. \<open>Read_past_end\<close> marks a
  \<open>memcpy\<close> whose source range leaves the vector it reads: the class raises nothing there,
  the behaviour of the C++ program is undefined, and the model keeps that apart from every
  defined result.
\<close>

datatype error = Decompress_failed | Read_past_end

text \<open>
  \<open>decompress(compression_type, host_span<uint8_t const>)\<close> is declared in
  \<open>../comp/io_uncomp.hpp\<close>, outside the files embedded here. It is a parameter of every
  operation below: a function of the kind and the compressed bytes that returns the
  decompressed bytes, or \<open>None\<close> where the primitive throws.
\<close>

type_synonym decompressor = "compression_type \<Rightarrow> byte list \<Rightarrow> byte list option"

text \<open>
  Modelled from the spec: \<open>estimate_uncompressed_size\<close> is declared in
  \<open>../comp/io_uncomp.hpp\<close>, outside the files embedded here. For the kinds it is called with
  the spec has it apply the fixed heuristic multiplier (the constant
  \<open>estimated_compression_ratio\<close> of the header) to the compressed size, without
  decompressing. The product is a \<open>size_t\<close>.
\<close>

definition estimate_uncompressed_size :: "compression_type \<Rightarrow> byte list \<Rightarrow> size_t" where
  "estimate_uncompressed_size comptype ch = of_int estimated_compression_ratio * vsize ch"

subsection \<open>The class \<open>compressed_host_buffer_source\<close>\<close>

text \<open>
  The four data members, and one field that is not in the class: \<open>decompress_calls\<close>
  counts the invocations of \<open>decompress\<close> made on behalf of the object, so that statements
  about how often the primitive runs can be made.
\<close>

record compressed_host_buffer_source =
  ch_buffer :: "byte list"
  comptype :: compression_type
  decompressed_ch_buffer_size :: size_t
  decompressed_buffer :: "byte list"
  decompress_calls :: nat

text \<open>
  The constructor. An exception of \<open>decompress\<close> in the eager branch leaves no object.
\<close>

definition construct_source ::
  "decompressor \<Rightarrow> byte list \<Rightarrow> compression_type \<Rightarrow> error + compressed_host_buffer_source" where
  "construct_source dec ch ct =
     (if ct = GZIP \<or> ct = ZIP \<or> ct = SNAPPY then
        Inr \<lparr>ch_buffer = ch, comptype = ct,
             decompressed_ch_buffer_size = estimate_uncompressed_size ct ch,
             decompressed_buffer = [], decompress_calls = 0\<rparr>
      else
        (case dec ct ch of
           None \<Rightarrow> Inl Decompress_failed
         | Some d \<Rightarrow>
             Inr \<lparr>ch_buffer = ch, comptype = ct,
                  decompressed_ch_buffer_size = vsize d,
                  decompressed_buffer = d, decompress_calls = 1\<rparr>))"

text \<open>\<open>size()\<close> and \<open>supports_device_read()\<close>.\<close>

definition source_size :: "compressed_host_buffer_source \<Rightarrow> size_t" where
  "source_size s = decompressed_ch_buffer_size s"

definition supports_device_read :: "compressed_host_buffer_source \<Rightarrow> bool" where
  "supports_device_read s = False"

text \<open>
  \<open>std::memcpy(dst, v.data() + offset, count)\<close>: the bytes that reach the destination.
  The read is defined only while it stays inside the vector.
\<close>

definition memcpy_from :: "byte list \<Rightarrow> size_t \<Rightarrow> size_t \<Rightarrow> byte list option" where
  "memcpy_from v offset count =
     (if unat offset + unat count \<le> length v
      then Some (take (unat count) (drop (unat offset) v))
      else None)"

text \<open>
  \<open>host_read(offset, size, dst)\<close>: decompresses on every call. The result is the returned
  count together with the bytes written to \<open>dst\<close>. The parameter \<open>size\<close> of both
  overloads is written \<open>sz\<close>.
\<close>

definition host_read_dst ::
  "decompressor \<Rightarrow> compressed_host_buffer_source \<Rightarrow> size_t \<Rightarrow> size_t \<Rightarrow>
     (error + size_t \<times> byte list) \<times> compressed_host_buffer_source" where
  "host_read_dst dec s offset sz =
     (let s1 = s\<lparr>decompress_calls := Suc (decompress_calls s)\<rparr> in
      case dec (comptype s) (ch_buffer s) of
        None \<Rightarrow> (Inl Decompress_failed, s1)
      | Some decompressed_hbuf \<Rightarrow>
          (let count = min sz (vsize decompressed_hbuf - offset) in
           case memcpy_from decompressed_hbuf offset count of
             None \<Rightarrow> (Inl Read_past_end, s1)
           | Some written \<Rightarrow> (Inr (count, written), s1)))"

text \<open>
  The two kinds of \<open>datasource::buffer\<close> the class returns. An \<open>owning_buffer\<close> holds the
  vector moved into it, with the offset of its data pointer in that vector and its size;
  a \<open>non_owning_buffer\<close> is a view with the offset of its data pointer in the source's
  \<open>_decompressed_buffer\<close> and its size.
\<close>

datatype buffer =
    owning_buffer "byte list" size_t size_t
  | non_owning_buffer size_t size_t

fun buffer_size :: "buffer \<Rightarrow> size_t" where
  "buffer_size (owning_buffer owner offset count) = count"
| "buffer_size (non_owning_buffer offset count) = count"

text \<open>
  The bytes a caller reads through a buffer, given the state of the source the buffer came
  from: \<open>None\<close> where the view leaves the vector it points into.
\<close>

fun buffer_data :: "compressed_host_buffer_source \<Rightarrow> buffer \<Rightarrow> byte list option" where
  "buffer_data s (owning_buffer owner offset count) = memcpy_from owner offset count"
| "buffer_data s (non_owning_buffer offset count) =
     memcpy_from (decompressed_buffer s) offset count"

text \<open>The last two lines of \<open>host_read(offset, size)\<close>: the read served from the member.\<close>

definition read_cached ::
  "compressed_host_buffer_source \<Rightarrow> size_t \<Rightarrow> size_t \<Rightarrow>
     (error + buffer) \<times> compressed_host_buffer_source" where
  "read_cached s offset sz =
     (let count = min sz (vsize (decompressed_buffer s) - offset)
      in (Inr (non_owning_buffer offset count), s))"

text \<open>\<open>host_read(offset, size)\<close>, returning a buffer.\<close>

definition host_read ::
  "decompressor \<Rightarrow> compressed_host_buffer_source \<Rightarrow> size_t \<Rightarrow> size_t \<Rightarrow>
     (error + buffer) \<times> compressed_host_buffer_source" where
  "host_read dec s offset sz =
     (if decompressed_buffer s = [] then
        (let s1 = s\<lparr>decompress_calls := Suc (decompress_calls s)\<rparr> in
         case dec (comptype s) (ch_buffer s) of
           None \<Rightarrow> (Inl Decompress_failed, s1)
         | Some decompressed_hbuf \<Rightarrow>
             (let count = min sz (vsize decompressed_hbuf - offset);
                  partial_read = (offset + count < vsize decompressed_hbuf)
              in if \<not> partial_read
                 then (Inr (owning_buffer decompressed_hbuf offset count), s1)
                 else read_cached (s1\<lparr>decompressed_buffer := decompressed_hbuf\<rparr>) offset sz))
      else read_cached s offset sz)"

text \<open>
  A sequence of reads on one object, in either overload. A read that throws leaves the
  object as it was (the counter apart) and the caller may go on.
\<close>

datatype call = Read_dst size_t size_t | Read_buffer size_t size_t

fun do_call :: "decompressor \<Rightarrow> call \<Rightarrow> compressed_host_buffer_source \<Rightarrow> compressed_host_buffer_source" where
  "do_call dec (Read_dst offset sz) s = snd (host_read_dst dec s offset sz)"
| "do_call dec (Read_buffer offset sz) s = snd (host_read dec s offset sz)"

definition after_calls ::
  "decompressor \<Rightarrow> call list \<Rightarrow> compressed_host_buffer_source \<Rightarrow> compressed_host_buffer_source" where
  "after_calls dec calls s = fold (do_call dec) calls s"

text \<open>
  A decompression primitive for closed examples: the first byte is a repetition count for
  the bytes after it, and the empty input is rejected. It ignores the kind.
\<close>

definition repeat_decompress :: decompressor where
  "repeat_decompress ct ch =
     (case ch of [] \<Rightarrow> None | n # payload \<Rightarrow> Some (concat (replicate (unat n) payload)))"

text \<open>
  What the member holds: nothing, or the decompressed content. The constructor establishes
  it and both overloads keep it (shown below), so it holds of every object a caller can have.
\<close>

definition cache_consistent :: "decompressor \<Rightarrow> compressed_host_buffer_source \<Rightarrow> bool" where
  "cache_consistent dec s \<longleftrightarrow>
     decompressed_buffer s = [] \<or> dec (comptype s) (ch_buffer s) = Some (decompressed_buffer s)"

text \<open>
  Two objects for closed examples, each the result of the constructor (shown where they
  are used): a GZIP source over \<open>[12, 97]\<close>, whose content is twelve bytes \<open>97\<close> and whose
  estimated size is 8; and a source of another kind over \<open>[3, 97]\<close>, decompressed at
  construction.
\<close>

definition gzip_example :: compressed_host_buffer_source where
  "gzip_example =
     \<lparr>ch_buffer = [12, 97], comptype = GZIP, decompressed_ch_buffer_size = 8,
      decompressed_buffer = [], decompress_calls = 0\<rparr>"

definition eager_example :: compressed_host_buffer_source where
  "eager_example =
     \<lparr>ch_buffer = [3, 97], comptype = OTHER, decompressed_ch_buffer_size = 3,
      decompressed_buffer = replicate 3 97, decompress_calls = 1\<rparr>"

subsection \<open>Raw ingestion\<close>

text \<open>
  Modelled from the spec: \<open>ingest_raw_input\<close> is declared in read_json.hpp and defined in
  read_json.cu, which is not among the files embedded here. The spec names one failure of
  its own, source-exhausted. It says nothing of a target buffer with too little room for
  what is filled in; the model keeps that case apart as \<open>Buffer_too_small\<close> and no
  statement below is about it.
\<close>

datatype ingest_error = Source_exhausted | Buffer_too_small

text \<open>
  Modelled from the spec: the filling loop of \<open>ingest_raw_input\<close> (section 4.3). The sources
  are given by their logical byte streams, in order; \<open>pos\<close> is the position of the first
  byte of the head source in the concatenation of all streams and \<open>[lo, hi)\<close> the requested
  range. Each source contributes its bytes that lie in the range; a source that is not the
  last one is followed by one delimiter byte when its end, the boundary to the next source,
  falls strictly inside the range.
\<close>

fun fill_from :: "char \<Rightarrow> nat \<Rightarrow> nat \<Rightarrow> nat \<Rightarrow> string list \<Rightarrow> string" where
  "fill_from delimiter lo hi pos [] = []"
| "fill_from delimiter lo hi pos [s] = take (hi - max lo pos) (drop (lo - pos) s)"
| "fill_from delimiter lo hi pos (s # t # rest) =
     take (hi - max lo pos) (drop (lo - pos) s) @
     (if lo < pos + length s \<and> pos + length s < hi then [delimiter] else []) @
     fill_from delimiter lo hi (pos + length s) (t # rest)"

text \<open>
  Modelled from the spec: \<open>ingest_raw_input\<close> (section 4.3), absent from the files embedded here
  as said above. Arguments: the delimiter byte, which the reader options select (section 6),
  the contents of the target buffer, the sources, the compression kind (which the contract
  of section 4.3 receives and does not use), and the requested range. It fails with
  source-exhausted when the cumulative size of the sources is smaller than the offset, and
  otherwise returns the buffer as filled together with the size of the filled sub-span, which
  starts at the start of the buffer.
\<close>

definition ingest_raw_input ::
  "char \<Rightarrow> string \<Rightarrow> string list \<Rightarrow> compression_type \<Rightarrow> nat \<Rightarrow> nat \<Rightarrow>
     ingest_error + string \<times> nat" where
  "ingest_raw_input delimiter buffer sources compression range_offset range_size =
     (if length (concat sources) < range_offset then Inl Source_exhausted
      else
        (let filled = fill_from delimiter range_offset (range_offset + range_size) 0 sources
         in if length buffer < length filled then Inl Buffer_too_small
            else Inr (filled @ drop (length filled) buffer, length filled)))"

text \<open>
  The two quantities the contract speaks of, each defined on the concatenation of the
  streams and not through the filling loop: the number of content bytes of the requested
  range, and the number of source boundaries strictly inside it. A boundary is the position
  where a source that is not the last one ends.
\<close>

fun source_boundaries :: "nat \<Rightarrow> string list \<Rightarrow> nat list" where
  "source_boundaries pos [] = []"
| "source_boundaries pos [s] = []"
| "source_boundaries pos (s # t # rest) =
     (pos + length s) # source_boundaries (pos + length s) (t # rest)"

definition boundaries_inside :: "string list \<Rightarrow> nat \<Rightarrow> nat \<Rightarrow> nat" where
  "boundaries_inside sources range_offset range_size =
     length (filter (\<lambda>b. range_offset < b \<and> b < range_offset + range_size)
       (source_boundaries 0 sources))"

definition content_bytes :: "string list \<Rightarrow> nat \<Rightarrow> nat \<Rightarrow> nat" where
  "content_bytes sources range_offset range_size =
     length (take range_size (drop range_offset (concat sources)))"

subsection \<open>Quote normalization\<close>

text \<open>The three bytes the transducer tells apart: \<open>"\<close>, \<open>'\<close> and the backslash.\<close>

definition double_quote :: char where
  "double_quote = CHR 0x22"

definition single_quote :: char where
  "single_quote = CHR 0x27"

definition backslash :: char where
  "backslash = CHR 0x5C"

text \<open>
  Modelled from the spec: \<open>normalize_quotes\<close> is called by
  tests/io/json_quote_normalization_test.cpp and defined outside the files embedded here. These
  are the five states of section 4.5.
\<close>

datatype fst_state =
    Outside_string
  | Inside_double_quoted
  | Inside_single_quoted
  | Escape_pending_in_double
  | Escape_pending_in_single

text \<open>
  Modelled from the spec: the transitions of section 4.5 of the transducer
  \<open>normalize_quotes\<close> (absent from the files embedded here), one equation per state, giving the
  next state and the bytes emitted. The spec names the state Inside-double-quoted without
  spelling out how it is entered and left: an unescaped \<open>"\<close> outside a string enters it, an
  unescaped \<open>"\<close> inside it leaves it, and both are emitted unchanged, as "all other bytes"
  are.
\<close>

fun transduce_step :: "fst_state \<Rightarrow> char \<Rightarrow> fst_state \<times> string" where
  "transduce_step Outside_string c =
     (if c = single_quote then (Inside_single_quoted, [double_quote])
      else if c = double_quote then (Inside_double_quoted, [c])
      else (Outside_string, [c]))"
| "transduce_step Inside_single_quoted c =
     (if c = single_quote then (Outside_string, [double_quote])
      else if c = double_quote then (Inside_single_quoted, [backslash, double_quote])
      else if c = backslash then (Escape_pending_in_single, [c])
      else (Inside_single_quoted, [c]))"
| "transduce_step Inside_double_quoted c =
     (if c = backslash then (Escape_pending_in_double, [c])
      else if c = double_quote then (Outside_string, [c])
      else (Inside_double_quoted, [c]))"
| "transduce_step Escape_pending_in_double c = (Inside_double_quoted, [c])"
| "transduce_step Escape_pending_in_single c = (Inside_single_quoted, [c])"

text \<open>
  Modelled from the spec: the run of the transducer of \<open>normalize_quotes\<close> (absent from the
  files embedded here) over a buffer, from a given state to the end of the stream. It only
  transduces: ending inside a string is no failure.
\<close>

fun transduce :: "fst_state \<Rightarrow> string \<Rightarrow> string" where
  "transduce st [] = []"
| "transduce st (c # cs) =
     (case transduce_step st c of (st', emitted) \<Rightarrow> emitted @ transduce st' cs)"

text \<open>
  Modelled from the spec: \<open>normalize_quotes\<close> (absent from the files embedded here) runs the
  transducer from its initial state, Outside-string, and returns the new buffer.
\<close>

definition normalize_quotes :: "string \<Rightarrow> string" where
  "normalize_quotes input = transduce Outside_string input"

section \<open>Properties\<close>

subsection \<open>Reads inside the decompressed content\<close>

text \<open>
  With a content that fits the address space and an offset inside it, the \<open>size_t\<close>
  arithmetic of both overloads does not wrap.
\<close>

lemma unat_vsize: "length d < 2 ^ 64 \<Longrightarrow> unat (vsize d) = length d"
  by (simp add: vsize_def unat_of_nat)

lemma unat_count:
  assumes "length d < 2 ^ 64" and "unat offset \<le> length d"
  shows "unat (min sz (vsize d - offset)) = min (unat sz) (length d - unat offset)"
proof -
  have le: "offset \<le> vsize d"
    using assms by (simp add: word_le_nat_alt unat_vsize)
  have "unat (vsize d - offset) = length d - unat offset"
    using assms by (simp add: unat_sub [OF le] unat_vsize)
  then show ?thesis
    by (simp add: min_def word_le_nat_alt)
qed

lemma unat_offset_count:
  assumes "length d < 2 ^ 64" and "unat offset \<le> length d"
  shows "unat (offset + min sz (vsize d - offset)) =
         unat offset + min (unat sz) (length d - unat offset)"
proof -
  have "unat offset + unat (min sz (vsize d - offset)) \<le> length d"
    using assms by (simp add: unat_count)
  then have "unat offset + unat (min sz (vsize d - offset)) < 2 ^ LENGTH(64)"
    using assms(1) by simp
  then show ?thesis
    using assms by (simp add: unat_add_lem [THEN iffD1] unat_count)
qed

lemma partial_read_iff:
  assumes "length d < 2 ^ 64" and "unat offset \<le> length d"
  shows "offset + min sz (vsize d - offset) < vsize d \<longleftrightarrow> unat offset + unat sz < length d"
  using assms by (simp add: word_less_nat_alt unat_offset_count unat_vsize) arith

lemma memcpy_from_count:
  assumes "length d < 2 ^ 64" and "unat offset \<le> length d"
  shows "memcpy_from d offset (min sz (vsize d - offset)) =
         Some (take (unat sz) (drop (unat offset) d))"
proof -
  have c: "unat (min sz (vsize d - offset)) = min (unat sz) (length d - unat offset)"
    using assms by (rule unat_count)
  have t: "take (min (unat sz) (length d - unat offset)) (drop (unat offset) d) =
           take (unat sz) (drop (unat offset) d)"
    by (simp add: min_def)
  show ?thesis
    unfolding memcpy_from_def c t using assms(2) by simp
qed

lemma host_read_dst_ok:
  assumes "dec (comptype s) (ch_buffer s) = Some d"
    and "length d < 2 ^ 64" and "unat offset \<le> length d"
  shows "host_read_dst dec s offset sz =
           (Inr (min sz (vsize d - offset), take (unat sz) (drop (unat offset) d)),
            s\<lparr>decompress_calls := Suc (decompress_calls s)\<rparr>)"
  using assms by (simp add: host_read_dst_def memcpy_from_count)

lemma host_read_fresh:
  assumes "decompressed_buffer s = []"
    and "dec (comptype s) (ch_buffer s) = Some d"
    and "length d < 2 ^ 64" and "unat offset \<le> length d"
  shows "host_read dec s offset sz =
           (if length d \<le> unat offset + unat sz
            then (Inr (owning_buffer d offset (min sz (vsize d - offset))),
                  s\<lparr>decompress_calls := Suc (decompress_calls s)\<rparr>)
            else (Inr (non_owning_buffer offset (min sz (vsize d - offset))),
                  s\<lparr>decompress_calls := Suc (decompress_calls s), decompressed_buffer := d\<rparr>))"
proof -
  have p: "(offset + min sz (vsize d - offset) < vsize d) = (\<not> length d \<le> unat offset + unat sz)"
    using partial_read_iff [OF assms(3,4), of sz] by (simp add: not_le)
  show ?thesis
    using assms(1,2) by (simp add: host_read_def read_cached_def Let_def p)
qed

lemma host_read_cached:
  assumes "decompressed_buffer s \<noteq> []"
  shows "host_read dec s offset sz =
           (Inr (non_owning_buffer offset (min sz (vsize (decompressed_buffer s) - offset))), s)"
  using assms by (simp add: host_read_def read_cached_def)

subsection \<open>What a sequence of reads keeps\<close>

lemma construct_source_fields:
  assumes "construct_source dec ch ct = Inr s"
  shows "ch_buffer s = ch" and "comptype s = ct" and "cache_consistent dec s"
  using assms
  by (auto simp: construct_source_def cache_consistent_def split: if_splits option.splits)

lemma host_read_dst_state:
  "snd (host_read_dst dec s offset sz) = s\<lparr>decompress_calls := Suc (decompress_calls s)\<rparr>"
  by (simp add: host_read_dst_def Let_def split: option.splits)

lemma host_read_state:
  "snd (host_read dec s offset sz) = s\<lparr>decompress_calls := decompress_calls (snd (host_read dec s offset sz))\<rparr>
   \<or> (decompressed_buffer s = [] \<and> (\<exists>d. dec (comptype s) (ch_buffer s) = Some d \<and>
        snd (host_read dec s offset sz) = s\<lparr>decompress_calls := Suc (decompress_calls s), decompressed_buffer := d\<rparr>))"
  by (simp add: host_read_def read_cached_def Let_def split: option.splits)

lemma do_call_frame:
  "ch_buffer (do_call dec c s) = ch_buffer s \<and> comptype (do_call dec c s) = comptype s \<and>
   decompressed_ch_buffer_size (do_call dec c s) = decompressed_ch_buffer_size s"
proof (cases c)
  case (Read_dst offset sz)
  then show ?thesis by (simp add: host_read_dst_state)
next
  case (Read_buffer offset sz)
  from host_read_state [of dec s offset sz] show ?thesis
    unfolding Read_buffer do_call.simps
    by (elim disjE conjE exE) (erule ssubst, simp)+
qed

lemma do_call_consistent:
  assumes "cache_consistent dec s"
  shows "cache_consistent dec (do_call dec c s)"
proof (cases c)
  case (Read_dst offset sz)
  with assms show ?thesis by (simp add: host_read_dst_state cache_consistent_def)
next
  case (Read_buffer offset sz)
  from host_read_state [of dec s offset sz] assms show ?thesis
    unfolding Read_buffer do_call.simps cache_consistent_def
    by (elim disjE conjE exE) (erule ssubst, simp)+
qed

lemma after_calls_frame:
  "ch_buffer (after_calls dec calls s) = ch_buffer s \<and>
   comptype (after_calls dec calls s) = comptype s \<and>
   decompressed_ch_buffer_size (after_calls dec calls s) = decompressed_ch_buffer_size s"
  unfolding after_calls_def
  by (induction calls arbitrary: s) (simp_all add: do_call_frame)

lemma after_calls_consistent:
  "cache_consistent dec s \<Longrightarrow> cache_consistent dec (after_calls dec calls s)"
  unfolding after_calls_def
  by (induction calls arbitrary: s) (simp_all add: do_call_consistent)

lemma reached_source:
  assumes "construct_source dec ch ct = Inr s0" and "s = after_calls dec calls s0"
  shows "ch_buffer s = ch" and "comptype s = ct" and "cache_consistent dec s"
  using assms construct_source_fields [OF assms(1)]
  by (simp_all add: after_calls_frame after_calls_consistent)

lemma host_read_ok:
  assumes "cache_consistent dec s"
    and "dec (comptype s) (ch_buffer s) = Some d"
    and "length d < 2 ^ 64" and "unat offset \<le> length d"
  shows "\<exists>b. fst (host_read dec s offset sz) = Inr b \<and>
             buffer_size b = min sz (vsize d - offset) \<and>
             buffer_data (snd (host_read dec s offset sz)) b =
               Some (take (unat sz) (drop (unat offset) d))"
proof (cases "decompressed_buffer s = []")
  case True
  show ?thesis
    by (simp add: host_read_fresh [where dec = dec, OF True assms(2,3,4)] memcpy_from_count [OF assms(3,4)])
next
  case False
  with assms(1,2) have "decompressed_buffer s = d"
    by (simp add: cache_consistent_def)
  with False show ?thesis
    by (simp add: host_read_cached memcpy_from_count [OF assms(3,4)])
qed

subsection \<open>The example objects come from the constructor\<close>

lemma construct_gzip_example:
  "construct_source repeat_decompress [12, 97] GZIP = Inr gzip_example"
  by (simp add: construct_source_def gzip_example_def estimate_uncompressed_size_def
      estimated_compression_ratio_def vsize_def)

lemma construct_eager_example:
  "construct_source repeat_decompress [3, 97] OTHER = Inr eager_example"
  by (simp add: construct_source_def eager_example_def repeat_decompress_def vsize_def)

lemma decompress_gzip_example:
  "repeat_decompress GZIP [12, 97] = Some (replicate 12 97)"
  by (simp add: repeat_decompress_def)

subsection \<open>The tuning constants\<close>

text \<open>
  C9: the planner's constants are a minimum sub-chunk size of 10,000 bytes, 10 sub-chunks
  per batch, and device buffers pre-allocated for at most 3 sub-chunks.
\<close>

theorem tuning_constants:
  "min_subchunk_size = 10000 \<and> num_subchunks = 10 \<and> max_subchunks_prealloced = 3"
  by (simp add: min_subchunk_size_def num_subchunks_def max_subchunks_prealloced_def)

subsection \<open>Construction\<close>

text \<open>
  C5: for GZIP, ZIP and SNAPPY the constructor records the estimate, four times the
  compressed size, without a call of \<open>decompress\<close>, and leaves the member empty (the
  object it builds does not depend on the primitive at all). For any other kind it calls
  \<open>decompress\<close> once, keeps the result in the member and records its length; if the
  primitive throws, so does the constructor. The sizes are \<open>size_t\<close> values and are the
  exact numbers as long as these fit 64 bits.
\<close>

theorem construct_source_strategy:
  "(ct = GZIP \<or> ct = ZIP \<or> ct = SNAPPY \<longrightarrow>
      construct_source dec ch ct =
        Inr \<lparr>ch_buffer = ch, comptype = ct,
             decompressed_ch_buffer_size = 4 * vsize ch,
             decompressed_buffer = [], decompress_calls = 0\<rparr> \<and>
      (length ch < 2 ^ 62 \<longrightarrow> unat (4 * vsize ch) = 4 * length ch)) \<and>
   (\<not> (ct = GZIP \<or> ct = ZIP \<or> ct = SNAPPY) \<longrightarrow>
      (case dec ct ch of
         None \<Rightarrow> construct_source dec ch ct = Inl Decompress_failed
       | Some d \<Rightarrow>
           construct_source dec ch ct =
             Inr \<lparr>ch_buffer = ch, comptype = ct,
                  decompressed_ch_buffer_size = vsize d,
                  decompressed_buffer = d, decompress_calls = 1\<rparr> \<and>
           (length d < 2 ^ 64 \<longrightarrow> unat (vsize d) = length d)))"
proof -
  have "unat (4 * vsize ch) = 4 * length ch" if "length ch < 2 ^ 62"
  proof -
    have "unat (vsize ch) = length ch"
      using that by (simp add: vsize_def unat_of_nat)
    then show ?thesis
      using that by (simp add: unat_word_ariths)
  qed
  then show ?thesis
    by (simp add: construct_source_def estimate_uncompressed_size_def
        estimated_compression_ratio_def unat_vsize split: option.splits)
qed

theorem construct_source_strategy_witness:
  "construct_source repeat_decompress [12, 97] GZIP =
     Inr \<lparr>ch_buffer = [12, 97], comptype = GZIP, decompressed_ch_buffer_size = 8,
          decompressed_buffer = [], decompress_calls = 0\<rparr> \<and>
   construct_source repeat_decompress [3, 97] OTHER =
     Inr \<lparr>ch_buffer = [3, 97], comptype = OTHER, decompressed_ch_buffer_size = 3,
          decompressed_buffer = replicate 3 97, decompress_calls = 1\<rparr> \<and>
   construct_source repeat_decompress [] OTHER = Inl Decompress_failed"
  using construct_source_strategy [of GZIP repeat_decompress "[12, 97]"]
    construct_source_strategy [of OTHER repeat_decompress "[3, 97]"]
    construct_source_strategy [of OTHER repeat_decompress "[]"]
  by (simp add: repeat_decompress_def vsize_def)

subsection \<open>\<open>size()\<close> after reads\<close>

text \<open>
  C2, as stated, fails: the GZIP source over \<open>[12, 97]\<close> decompresses to twelve bytes;
  a read of the range \<open>(0, 12)\<close> returns all of them, and \<open>size()\<close> is 8 before and after.
  Nor does the estimate bound the content: the GZIP source over \<open>[200, 97]\<close> has the
  estimate 8 and a content of 200 bytes, more than four times the estimate.
\<close>

theorem source_size_after_read_counterexample:
  "construct_source repeat_decompress [12, 97] GZIP = Inr gzip_example \<and>
   repeat_decompress GZIP [12, 97] = Some (replicate 12 97) \<and>
   length (replicate 12 (97 :: byte)) = 12 \<and>
   source_size gzip_example = 8 \<and>
   fst (host_read repeat_decompress gzip_example 0 12) =
     Inr (owning_buffer (replicate 12 97) 0 12) \<and>
   source_size (snd (host_read repeat_decompress gzip_example 0 12)) = 8 \<and>
   construct_source repeat_decompress [200, 97] GZIP =
     Inr \<lparr>ch_buffer = [200, 97], comptype = GZIP, decompressed_ch_buffer_size = 8,
          decompressed_buffer = [], decompress_calls = 0\<rparr> \<and>
   repeat_decompress GZIP [200, 97] = Some (replicate 200 97) \<and>
   4 * 8 < length (replicate 200 (97 :: byte))"
  by (simp add: construct_gzip_example decompress_gzip_example)
     (simp add: gzip_example_def host_read_def read_cached_def source_size_def
        repeat_decompress_def vsize_def construct_source_def estimate_uncompressed_size_def
        estimated_compression_ratio_def)

text \<open>
  C2, amended: for GZIP, ZIP and SNAPPY, \<open>size()\<close> is the estimate, four times the
  compressed size, computed without decompressing, and it stays that value after any
  sequence of reads of either overload: no read writes the recorded size.
\<close>

theorem source_size_stays_estimate:
  assumes "ct = GZIP \<or> ct = ZIP \<or> ct = SNAPPY"
  shows "\<exists>s0. construct_source dec ch ct = Inr s0 \<and>
              source_size s0 = 4 * vsize ch \<and>
              decompress_calls s0 = 0 \<and>
              source_size (after_calls dec calls s0) = 4 * vsize ch"
  using assms
  by (auto simp: construct_source_def source_size_def after_calls_frame
      estimate_uncompressed_size_def estimated_compression_ratio_def)

theorem source_size_stays_estimate_witness:
  "\<exists>s0. construct_source repeat_decompress [12, 97] GZIP = Inr s0 \<and>
         source_size s0 = 8 \<and>
         decompress_calls s0 = 0 \<and>
         source_size (after_calls repeat_decompress [Read_buffer 0 12, Read_dst 0 12] s0) = 8"
  using source_size_stays_estimate
    [of GZIP repeat_decompress "[12, 97]" "[Read_buffer 0 12, Read_dst 0 12]"]
  by (simp add: vsize_def)

subsection \<open>The first buffer-returning read\<close>

text \<open>
  C3, as stated, fails: on the fresh GZIP example the range \<open>(0, 2)\<close> is a strict prefix
  of the twelve decompressed bytes, and the read returns a non-owning view and keeps the
  decompressed bytes in the member; the range \<open>(10, 2)\<close>, which is no prefix but ends where
  the content ends, gets the owning buffer and leaves the member empty.
\<close>

theorem host_read_strict_prefix_counterexample:
  "construct_source repeat_decompress [12, 97] GZIP = Inr gzip_example \<and>
   decompressed_buffer gzip_example = [] \<and>
   repeat_decompress GZIP [12, 97] = Some (replicate 12 97) \<and>
   host_read repeat_decompress gzip_example 0 2 =
     (Inr (non_owning_buffer 0 2),
      gzip_example\<lparr>decompress_calls := 1, decompressed_buffer := replicate 12 97\<rparr>) \<and>
   host_read repeat_decompress gzip_example 10 2 =
     (Inr (owning_buffer (replicate 12 97) 10 2), gzip_example\<lparr>decompress_calls := 1\<rparr>)"
  by (simp add: construct_gzip_example decompress_gzip_example)
     (simp add: gzip_example_def host_read_def read_cached_def
        repeat_decompress_def vsize_def)

text \<open>
  C3, amended: on an object whose member is empty, a buffer-returning read at an offset
  inside the decompressed content calls \<open>decompress\<close> once; if the requested range
  reaches the end of the content (offset plus size is at least its length), the
  decompressed vector is moved into the owning buffer the caller gets and the member stays
  empty; if the range ends before the end of the content, as every strict prefix does, the
  vector is kept in the member and the caller gets a non-owning view of the range.
\<close>

theorem host_read_first_read:
  assumes "decompressed_buffer s = []"
    and "dec (comptype s) (ch_buffer s) = Some d"
    and "length d < 2 ^ 64" and "unat offset \<le> length d"
  shows "decompress_calls (snd (host_read dec s offset sz)) = Suc (decompress_calls s) \<and>
         (length d \<le> unat offset + unat sz \<longrightarrow>
            fst (host_read dec s offset sz) =
              Inr (owning_buffer d offset (min sz (vsize d - offset))) \<and>
            decompressed_buffer (snd (host_read dec s offset sz)) = []) \<and>
         (unat offset + unat sz < length d \<longrightarrow>
            fst (host_read dec s offset sz) = Inr (non_owning_buffer offset sz) \<and>
            decompressed_buffer (snd (host_read dec s offset sz)) = d)"
proof -
  have "min sz (vsize d - offset) = sz" if "unat offset + unat sz < length d"
  proof -
    have "unat (min sz (vsize d - offset)) = unat sz"
      using that by (simp add: unat_count [OF assms(3,4)])
    then show ?thesis by (simp add: word_unat_eq_iff)
  qed
  then show ?thesis
    using assms(1) by (simp add: host_read_fresh [where dec = dec, OF assms])
qed

theorem host_read_first_read_witness:
  "decompress_calls (snd (host_read repeat_decompress gzip_example 0 2)) = 1 \<and>
   fst (host_read repeat_decompress gzip_example 0 2) = Inr (non_owning_buffer 0 2) \<and>
   decompressed_buffer (snd (host_read repeat_decompress gzip_example 0 2)) = replicate 12 97 \<and>
   fst (host_read repeat_decompress gzip_example 10 2) = Inr (owning_buffer (replicate 12 97) 10 2) \<and>
   decompressed_buffer (snd (host_read repeat_decompress gzip_example 10 2)) = []"
proof -
  have e: "decompressed_buffer gzip_example = []"
    by (simp add: gzip_example_def)
  have d: "repeat_decompress (comptype gzip_example) (ch_buffer gzip_example) = Some (replicate 12 97)"
    by (simp add: gzip_example_def repeat_decompress_def)
  have l: "length (replicate 12 (97 :: byte)) < 2 ^ 64"
    by simp
  have "unat (0 :: size_t) \<le> length (replicate 12 (97 :: byte))"
    by simp
  from host_read_first_read [where dec = repeat_decompress and sz = 2, OF e d l this]
  have a: "decompress_calls (snd (host_read repeat_decompress gzip_example 0 2)) = 1"
    "fst (host_read repeat_decompress gzip_example 0 2) = Inr (non_owning_buffer 0 2)"
    "decompressed_buffer (snd (host_read repeat_decompress gzip_example 0 2)) = replicate 12 97"
    by (simp_all add: gzip_example_def)
  have "unat (10 :: size_t) \<le> length (replicate 12 (97 :: byte))"
    by simp
  from host_read_first_read [where dec = repeat_decompress and sz = 2, OF e d l this]
  have b: "fst (host_read repeat_decompress gzip_example 10 2) = Inr (owning_buffer (replicate 12 97) 10 2)"
    "decompressed_buffer (snd (host_read repeat_decompress gzip_example 10 2)) = []"
    by (simp_all add: vsize_def)
  from a b show ?thesis by simp
qed

subsection \<open>Decompression once the member is filled\<close>

text \<open>
  The buffer-returning overload serves a filled member without calling \<open>decompress\<close>.
\<close>

lemma host_read_reuses_member:
  assumes "decompressed_buffer s \<noteq> []"
  shows "decompress_calls (snd (host_read dec s offset sz)) = decompress_calls s"
    and "decompressed_buffer (snd (host_read dec s offset sz)) = decompressed_buffer s"
  using assms by (simp_all add: host_read_cached)

text \<open>
  C4: once the member is filled no read should decompress again. The raw-pointer overload
  does: on the source of kind OTHER over \<open>[3, 97]\<close>, whose member the constructor has
  filled with one call of \<open>decompress\<close>, a read of one byte through the raw-pointer overload
  makes a second call, and three such reads make three more; the buffer-returning overload
  on the same object makes none.
\<close>

theorem host_read_dst_ignores_member:
  "construct_source repeat_decompress [3, 97] OTHER = Inr eager_example \<and>
   decompressed_buffer eager_example = replicate 3 97 \<and>
   decompress_calls eager_example = 1 \<and>
   host_read_dst repeat_decompress eager_example 0 1 =
     (Inr (1, [97]), eager_example\<lparr>decompress_calls := 2\<rparr>) \<and>
   host_read repeat_decompress eager_example 0 1 =
     (Inr (non_owning_buffer 0 1), eager_example) \<and>
   decompress_calls
     (after_calls repeat_decompress [Read_dst 0 1, Read_dst 1 1, Read_dst 2 1] eager_example) = 4"
  by (simp add: construct_eager_example)
     (simp add: eager_example_def host_read_dst_def host_read_def read_cached_def
        repeat_decompress_def memcpy_from_def vsize_def after_calls_def)

subsection \<open>The range of a read\<close>

text \<open>
  C1, as stated, fails: \<open>size()\<close> of the GZIP example is 8, and a read at offset 10,
  beyond it, succeeds in both overloads and returns the two bytes of the content from
  position 10 on.
\<close>

theorem host_read_range_check_counterexample:
  "construct_source repeat_decompress [12, 97] GZIP = Inr gzip_example \<and>
   source_size gzip_example = 8 \<and>
   source_size gzip_example < 10 \<and>
   fst (host_read_dst repeat_decompress gzip_example 10 2) = Inr (2, replicate 2 97) \<and>
   fst (host_read repeat_decompress gzip_example 10 2) =
     Inr (owning_buffer (replicate 12 97) 10 2) \<and>
   buffer_data (snd (host_read repeat_decompress gzip_example 10 2))
     (owning_buffer (replicate 12 97) 10 2) = Some (replicate 2 97)"
  by (simp add: construct_gzip_example)
     (simp add: gzip_example_def host_read_def host_read_dst_def read_cached_def source_size_def
        repeat_decompress_def vsize_def memcpy_from_def)

text \<open>
  C1, amended: on any object reached from the constructor by reads of either overload,
  whose compressed bytes decompress to a content of fewer than \<open>2^64\<close> bytes, a read of
  either overload at an offset that does not exceed the length of the content succeeds and
  returns the bytes of the content from the offset on, at most the requested number:
  the count is the smaller of the requested size and the distance from the offset to the
  end of the content, hence below the requested size exactly when offset plus size exceeds
  the length of the content. The bound is the decompressed length, not \<open>size()\<close>.
\<close>

theorem host_read_within_content:
  assumes "construct_source dec ch ct = Inr s0" and "s = after_calls dec calls s0"
    and "dec ct ch = Some d" and "length d < 2 ^ 64" and "unat offset \<le> length d"
  shows "\<exists>count b.
           fst (host_read_dst dec s offset sz) =
             Inr (count, take (unat sz) (drop (unat offset) d)) \<and>
           fst (host_read dec s offset sz) = Inr b \<and>
           buffer_size b = count \<and>
           buffer_data (snd (host_read dec s offset sz)) b =
             Some (take (unat sz) (drop (unat offset) d)) \<and>
           unat count = min (unat sz) (length d - unat offset) \<and>
           length (take (unat sz) (drop (unat offset) d)) = unat count \<and>
           (unat count < unat sz \<longleftrightarrow> length d < unat offset + unat sz)"
proof -
  note r = reached_source [OF assms(1,2)]
  have d: "dec (comptype s) (ch_buffer s) = Some d"
    using assms(3) by (simp add: r)
  have c: "unat (min sz (vsize d - offset)) = min (unat sz) (length d - unat offset)"
    by (rule unat_count [OF assms(4,5)])
  have n: "length (take (unat sz) (drop (unat offset) d)) = min (unat sz) (length d - unat offset)"
    by (simp add: min.commute)
  have f: "min (unat sz) (length d - unat offset) < unat sz \<longleftrightarrow> length d < unat offset + unat sz"
    using assms(5) by auto
  from host_read_ok [OF r(3) d assms(4,5), of sz]
  obtain b where b: "fst (host_read dec s offset sz) = Inr b"
    "buffer_size b = min sz (vsize d - offset)"
    "buffer_data (snd (host_read dec s offset sz)) b = Some (take (unat sz) (drop (unat offset) d))"
    by blast
  have "fst (host_read_dst dec s offset sz) =
          Inr (min sz (vsize d - offset), take (unat sz) (drop (unat offset) d))"
    by (simp add: host_read_dst_ok [where dec = dec, OF d assms(4,5)])
  with b c n f show ?thesis
    by (intro exI [of _ "min sz (vsize d - offset)"] exI [of _ b]) simp
qed

theorem host_read_within_content_witness:
  "\<exists>count b.
     fst (host_read_dst repeat_decompress
            (after_calls repeat_decompress [Read_buffer 0 2] gzip_example) 10 5) =
       Inr (count, replicate 2 97) \<and>
     fst (host_read repeat_decompress
            (after_calls repeat_decompress [Read_buffer 0 2] gzip_example) 10 5) = Inr b \<and>
     buffer_size b = count \<and>
     buffer_data (snd (host_read repeat_decompress
            (after_calls repeat_decompress [Read_buffer 0 2] gzip_example) 10 5)) b =
       Some (replicate 2 97) \<and>
     unat count = 2 \<and> unat count < 5"
proof -
  have l: "length (replicate 12 (97 :: byte)) < 2 ^ 64"
    by simp
  have o: "unat (10 :: size_t) \<le> length (replicate 12 (97 :: byte))"
    by simp
  from host_read_within_content [where sz = 5 and calls = "[Read_buffer 0 2]",
      OF construct_gzip_example refl decompress_gzip_example l o]
  show ?thesis
    by simp
qed

subsection \<open>The two overloads\<close>

text \<open>
  C10: on any object reached from the constructor by reads of either overload, and for
  every offset that does not exceed the length of the decompressed content, the count
  returned by the raw-pointer overload is the size of the buffer returned by the other
  overload, and the bytes written to the destination are the bytes seen through that
  buffer, whether the buffer comes from a fresh decompression or from the member.
\<close>

theorem host_read_overloads_agree:
  assumes "construct_source dec ch ct = Inr s0" and "s = after_calls dec calls s0"
    and "dec ct ch = Some d" and "length d < 2 ^ 64" and "unat offset \<le> length d"
  shows "\<exists>count written b.
           fst (host_read_dst dec s offset sz) = Inr (count, written) \<and>
           fst (host_read dec s offset sz) = Inr b \<and>
           buffer_size b = count \<and>
           buffer_data (snd (host_read dec s offset sz)) b = Some written"
proof -
  note r = reached_source [OF assms(1,2)]
  have d: "dec (comptype s) (ch_buffer s) = Some d"
    using assms(3) by (simp add: r)
  from host_read_ok [OF r(3) d assms(4,5), of sz]
    host_read_dst_ok [where dec = dec and sz = sz, OF d assms(4,5)]
  show ?thesis by auto
qed

theorem host_read_overloads_agree_witness:
  "\<exists>count written b.
     fst (host_read_dst repeat_decompress
            (after_calls repeat_decompress [Read_buffer 0 2] gzip_example) 3 20) =
       Inr (count, written) \<and>
     fst (host_read repeat_decompress
            (after_calls repeat_decompress [Read_buffer 0 2] gzip_example) 3 20) = Inr b \<and>
     buffer_size b = count \<and>
     buffer_data (snd (host_read repeat_decompress
            (after_calls repeat_decompress [Read_buffer 0 2] gzip_example) 3 20)) b =
       Some written"
proof -
  have l: "length (replicate 12 (97 :: byte)) < 2 ^ 64"
    by simp
  have o: "unat (3 :: size_t) \<le> length (replicate 12 (97 :: byte))"
    by simp
  show ?thesis
    by (rule host_read_overloads_agree
        [OF construct_gzip_example refl decompress_gzip_example l o])
qed

subsection \<open>Quote normalization\<close>

text \<open>
  C6: on the input of the test, \<open>{"A":'TEST"'}\<close>, the transducer yields
  \<open>{"A":"TEST\""}\<close>: the enclosing single quotes become double quotes and the embedded
  double quote is emitted with a backslash before it.
\<close>

theorem normalize_quotes_test_input:
  "normalize_quotes
     (''{'' @ [double_quote] @ ''A'' @ [double_quote] @ '':'' @
      [single_quote] @ ''TEST'' @ [double_quote] @ [single_quote] @ ''}'') =
   ''{'' @ [double_quote] @ ''A'' @ [double_quote] @ '':'' @
   [double_quote] @ ''TEST'' @ [backslash, double_quote] @ [double_quote] @ ''}''"
  by (simp add: normalize_quotes_def double_quote_def single_quote_def backslash_def)

text \<open>
  Without a single quote the transducer never leaves the states Outside-string,
  Inside-double-quoted and Escape-pending-in-double, where every byte is emitted unchanged.
\<close>

lemma transduce_no_single_quote:
  assumes "single_quote \<notin> set cs"
    and "st = Outside_string \<or> st = Inside_double_quoted \<or> st = Escape_pending_in_double"
  shows "transduce st cs = cs"
  using assms
proof (induction cs arbitrary: st)
  case Nil
  then show ?case by simp
next
  case (Cons c cs)
  then show ?case by auto
qed

text \<open>
  C7: on a buffer with no single-quote byte the output of the transducer is the input,
  byte for byte; hence running it twice gives what running it once gives.
\<close>

theorem normalize_quotes_strict_identity:
  assumes "single_quote \<notin> set input"
  shows "normalize_quotes input = input \<and>
         normalize_quotes (normalize_quotes input) = normalize_quotes input"
  using assms by (simp add: normalize_quotes_def transduce_no_single_quote)

theorem normalize_quotes_strict_identity_witness:
  "single_quote \<notin> set (''{'' @ [double_quote] @ ''a'' @ [double_quote] @ '':'' @
      [double_quote] @ ''x'' @ [backslash, double_quote] @ ''y'' @ [double_quote] @ ''}'') \<and>
   normalize_quotes (''{'' @ [double_quote] @ ''a'' @ [double_quote] @ '':'' @
      [double_quote] @ ''x'' @ [backslash, double_quote] @ ''y'' @ [double_quote] @ ''}'') =
     ''{'' @ [double_quote] @ ''a'' @ [double_quote] @ '':'' @
      [double_quote] @ ''x'' @ [backslash, double_quote] @ ''y'' @ [double_quote] @ ''}''"
proof -
  have "single_quote \<notin> set (''{'' @ [double_quote] @ ''a'' @ [double_quote] @ '':'' @
      [double_quote] @ ''x'' @ [backslash, double_quote] @ ''y'' @ [double_quote] @ ''}'')"
    by (simp add: double_quote_def single_quote_def backslash_def)
  with normalize_quotes_strict_identity show ?thesis
    by blast
qed

subsection \<open>Raw ingestion\<close>

text \<open>
  The part of the range that lies in the first of several sources and the part that lies in
  the rest add up to the part that lies in all of them.
\<close>

lemma range_split:
  fixes n m lo hi pos :: nat
  shows "min (n + m - (lo - pos)) (hi - max lo pos) =
         min (n - (lo - pos)) (hi - max lo pos) +
         min (m - (lo - (pos + n))) (hi - max lo (pos + n))"
proof (cases "lo \<le> pos")
  case True
  then have "max lo pos = pos" and "max lo (pos + n) = pos + n"
    and "lo - pos = 0" and "lo - (pos + n) = 0"
    by simp_all
  then show ?thesis
    by (simp add: min_def) linarith
next
  case False
  show ?thesis
  proof (cases "lo \<le> pos + n")
    case True
    with False have "max lo pos = lo" and "max lo (pos + n) = pos + n"
      and "lo - (pos + n) = 0"
      by simp_all
    with True False show ?thesis
      by (simp add: min_def) linarith
  next
    case b: False
    with False have "max lo pos = lo" and "max lo (pos + n) = lo"
      and "n - (lo - pos) = 0"
      by simp_all
    with b False show ?thesis
      by (simp add: min_def) linarith
  qed
qed

lemma length_fill_from:
  "length (fill_from delimiter lo hi pos sources) =
     length (take (hi - max lo pos) (drop (lo - pos) (concat sources))) +
     length (filter (\<lambda>b. lo < b \<and> b < hi) (source_boundaries pos sources))"
proof (induction delimiter lo hi pos sources rule: fill_from.induct)
  case (1 delimiter lo hi pos)
  then show ?case by simp
next
  case (2 delimiter lo hi pos s)
  then show ?case by simp
next
  case (3 delimiter lo hi pos s t rest)
  define m where "m = length (concat (t # rest))"
  have c: "length (concat (s # t # rest)) = length s + m"
    by (simp add: m_def)
  have "length (fill_from delimiter lo hi pos (s # t # rest)) =
          min (length s - (lo - pos)) (hi - max lo pos) +
          (if lo < pos + length s \<and> pos + length s < hi then 1 else 0) +
          length (fill_from delimiter lo hi (pos + length s) (t # rest))"
    by simp
  also have "length (fill_from delimiter lo hi (pos + length s) (t # rest)) =
          min (m - (lo - (pos + length s))) (hi - max lo (pos + length s)) +
          length (filter (\<lambda>b. lo < b \<and> b < hi) (source_boundaries (pos + length s) (t # rest)))"
    by (simp only: "3.IH" m_def length_take length_drop)
  finally show ?case
    unfolding length_take length_drop c range_split [of "length s" m lo pos hi]
    by simp
qed

text \<open>
  C8: when the sources reach the requested offset and the buffer has room, the call
  returns the sub-span at the start of the buffer whose size is the number of content
  bytes of the range plus the number of source boundaries strictly inside the range; the
  span holds what the filling loop produced and the rest of the buffer is as it was. The
  content bytes are the requested length, cut at the end of the last source, so that for a
  range inside the sources the span exceeds the requested length by exactly the number of
  delimiters.
\<close>

theorem ingest_raw_input_size:
  assumes "range_offset \<le> length (concat sources)"
    and "content_bytes sources range_offset range_size +
         boundaries_inside sources range_offset range_size \<le> length buffer"
  shows "\<exists>buffer'.
           ingest_raw_input delimiter buffer sources compression range_offset range_size =
             Inr (buffer',
                  content_bytes sources range_offset range_size +
                  boundaries_inside sources range_offset range_size) \<and>
           length buffer' = length buffer \<and>
           take (content_bytes sources range_offset range_size +
                 boundaries_inside sources range_offset range_size) buffer' =
             fill_from delimiter range_offset (range_offset + range_size) 0 sources \<and>
           drop (content_bytes sources range_offset range_size +
                 boundaries_inside sources range_offset range_size) buffer' =
             drop (content_bytes sources range_offset range_size +
                   boundaries_inside sources range_offset range_size) buffer \<and>
           content_bytes sources range_offset range_size =
             min range_size (length (concat sources) - range_offset) \<and>
           (range_offset + range_size \<le> length (concat sources) \<longrightarrow>
              content_bytes sources range_offset range_size = range_size)"
proof -
  define filled where
    "filled = fill_from delimiter range_offset (range_offset + range_size) 0 sources"
  define n where
    "n = content_bytes sources range_offset range_size +
         boundaries_inside sources range_offset range_size"
  have len: "length filled = n"
    by (simp add: filled_def n_def length_fill_from content_bytes_def boundaries_inside_def)
  have room: "\<not> length buffer < length filled"
    using assms(2) by (simp add: len n_def)
  have call: "ingest_raw_input delimiter buffer sources compression range_offset range_size =
                Inr (filled @ drop n buffer, n)"
    using assms(1) room by (simp add: ingest_raw_input_def Let_def filled_def [symmetric] len)
  have size: "length (filled @ drop n buffer) = length buffer"
    using room by (simp add: len)
  have content: "content_bytes sources range_offset range_size =
                   min range_size (length (concat sources) - range_offset)"
    by (simp add: content_bytes_def min.commute)
  have "take n (filled @ drop n buffer) = filled"
    and "drop n (filled @ drop n buffer) = drop n buffer"
    by (simp_all add: len)
  with call size content show ?thesis
    unfolding n_def [symmetric] filled_def [symmetric]
    by (intro exI [of _ "filled @ drop n buffer"]) simp
qed

theorem ingest_raw_input_size_witness:
  "1 \<le> length (concat [''abc'', ''de'', [], ''fgh'']) \<and>
   content_bytes [''abc'', ''de'', [], ''fgh''] 1 6 = 6 \<and>
   boundaries_inside [''abc'', ''de'', [], ''fgh''] 1 6 = 3 \<and>
   (\<exists>buffer'.
      ingest_raw_input (CHR 0x0A) (replicate 12 CHR ''.'') [''abc'', ''de'', [], ''fgh''] NONE 1 6 =
        Inr (buffer', 9) \<and>
      length buffer' = 12 \<and>
      take 9 buffer' = ''bc'' @ [CHR 0x0A] @ ''de'' @ [CHR 0x0A, CHR 0x0A] @ ''fg'' \<and>
      drop 9 buffer' = replicate 3 CHR ''.'')"
proof -
  have c: "content_bytes [''abc'', ''de'', [], ''fgh''] 1 6 = 6"
    by (simp add: content_bytes_def)
  have b: "boundaries_inside [''abc'', ''de'', [], ''fgh''] 1 6 = 3"
    by (simp add: boundaries_inside_def)
  have o: "1 \<le> length (concat [''abc'', ''de'', [], ''fgh''])"
    by simp
  have r: "content_bytes [''abc'', ''de'', [], ''fgh''] 1 6 +
           boundaries_inside [''abc'', ''de'', [], ''fgh''] 1 6 \<le> length (replicate 12 CHR ''.'')"
    unfolding c b by simp
  have f: "fill_from (CHR 0x0A) 1 (1 + 6) 0 [''abc'', ''de'', [], ''fgh''] =
           ''bc'' @ [CHR 0x0A] @ ''de'' @ [CHR 0x0A, CHR 0x0A] @ ''fg''"
    by simp
  from ingest_raw_input_size [OF o r, of "CHR 0x0A" NONE] c b o show ?thesis
    by (simp add: f)
qed

end
